theory Spec2Isabelle
  imports Complex_Main "HOL-Library.Sublist"
begin

section \<open>Python string primitives\<close>

text \<open>
  A Python \<open>str\<close> is modelled as a \<open>string\<close>: the texts are taken over the code points
  below 256, one \<open>char\<close> each. The character classes are Python's on that range.
\<close>

definition newline :: char where
  "newline = CHR 0x0A"

text \<open>
  \<open>str.isspace\<close> on one character, which is also the class \<open>\s\<close> of \<open>re\<close> for a
  \<open>str\<close> pattern: tab, line feed, vertical tab, form feed, carriage return, the four
  separators 0x1C-0x1F, space, NEL and the no-break space.
\<close>

definition isspace :: "char \<Rightarrow> bool" where
  "isspace c = (c \<in> set [CHR 0x09, CHR 0x0A, CHR 0x0B, CHR 0x0C, CHR 0x0D,
                            CHR 0x1C, CHR 0x1D, CHR 0x1E, CHR 0x1F, CHR 0x20,
                            CHR 0x85, CHR 0xA0])"

text \<open>The class \<open>\d\<close>: the decimal digits.\<close>

definition isdecimal :: "char \<Rightarrow> bool" where
  "isdecimal c = (c \<in> set ''0123456789'')"

text \<open>\<open>s.strip()\<close>: leading and trailing whitespace removed.\<close>

definition strip :: "string \<Rightarrow> string" where
  "strip s = rev (dropWhile isspace (rev (dropWhile isspace s)))"

text \<open>\<open>s[a:b]\<close> for indices \<open>0 \<le> a\<close> and \<open>0 \<le> b\<close>; both are clamped to the length.\<close>

definition slice :: "'a list \<Rightarrow> nat \<Rightarrow> nat \<Rightarrow> 'a list" where
  "slice s a b = take (b - a) (drop a s)"

definition ascii_lowercase :: string where
  "ascii_lowercase = ''abcdefghijklmnopqrstuvwxyz''"

definition ascii_uppercase :: string where
  "ascii_uppercase = ''ABCDEFGHIJKLMNOPQRSTUVWXYZ''"

text \<open>
  Case mapping and the cased characters, for ASCII: every other character is uncased and
  mapped to itself.
\<close>

definition is_cased :: "char \<Rightarrow> bool" where
  "is_cased c = (c \<in> set (ascii_lowercase @ ascii_uppercase))"

definition to_upper :: "char \<Rightarrow> char" where
  "to_upper c = (case map_of (zip ascii_lowercase ascii_uppercase) c of Some u \<Rightarrow> u | None \<Rightarrow> c)"

definition to_lower :: "char \<Rightarrow> char" where
  "to_lower c = (case map_of (zip ascii_uppercase ascii_lowercase) c of Some l \<Rightarrow> l | None \<Rightarrow> c)"

text \<open>
  \<open>s.title()\<close>: a cased character is upper-cased when the character before it is not
  cased (or there is none) and lower-cased otherwise.
\<close>

fun title_loop :: "bool \<Rightarrow> string \<Rightarrow> string" where
  "title_loop previous_is_cased [] = []"
| "title_loop previous_is_cased (c # cs) =
     (if previous_is_cased then to_lower c else to_upper c) # title_loop (is_cased c) cs"

definition title :: "string \<Rightarrow> string" where
  "title s = title_loop False s"

text \<open>\<open>s.replace(old, new)\<close> for one-character \<open>old\<close> and \<open>new\<close>.\<close>

definition replace :: "char \<Rightarrow> char \<Rightarrow> string \<Rightarrow> string" where
  "replace old new s = map (\<lambda>c. if c = old then new else c) s"

text \<open>\<open>s.rfind(c)\<close>: the index of the last occurrence of \<open>c\<close>, or \<open>-1\<close>.\<close>

definition rfind :: "char \<Rightarrow> string \<Rightarrow> int" where
  "rfind c s =
     (if c \<in> set s then int (length s) - 1 - int (length (takeWhile (\<lambda>x. x \<noteq> c) (rev s)))
      else - 1)"

text \<open>
  \<open>os.path.splitext(p)\<close> (POSIX): the extension starts at the last dot of the last path
  component, unless only dots stand before it in that component.
\<close>

definition splitext :: "string \<Rightarrow> string \<times> string" where
  "splitext p =
     (let sepIndex = rfind (CHR ''/'') p;
          dotIndex = rfind (CHR ''.'') p
      in if dotIndex > sepIndex \<and>
            list_ex (\<lambda>c. c \<noteq> CHR ''.'') (slice p (nat (sepIndex + 1)) (nat dotIndex))
         then (take (nat dotIndex) p, drop (nat dotIndex) p)
         else (p, []))"

section \<open>Ingestion: film titles and scene segmentation (01_ingest.py)\<close>

text \<open>\<open>derive_film_title(filename)\<close>.\<close>

definition derive_film_title :: "string \<Rightarrow> string" where
  "derive_film_title filename =
     (let name = fst (splitext filename)
      in title (replace (CHR ''-'') (CHR '' '') name))"

text \<open>A scene: the dictionary \<open>extract_scenes\<close> appends.\<close>

record document =
  doc_film :: string
  doc_scene_id :: nat
  doc_heading :: string
  doc_text :: string

text \<open>
  The pattern \<open>(?m)^(?:\d+\s+)?((?:INT|EXT|INT\/EXT|I\/E)[\.\s].+?)$\<close>.
  The alternatives of the keyword group are tried in the order written.
\<close>

definition scene_keywords :: "string list" where
  "scene_keywords = [''INT'', ''EXT'', ''INT/EXT'', ''I/E'']"

text \<open>
  Group 1 for one keyword at the head of \<open>s\<close>: the keyword, one character that is a dot
  or whitespace, and \<open>.+?$\<close>. The dot of \<open>re\<close> matches no line feed and \<open>$\<close> holds only
  before a line feed or at the end of the text, so the lazy \<open>.+?\<close> takes the rest of
  the line, which must not be empty.
\<close>

definition match_heading :: "string \<Rightarrow> string \<Rightarrow> string option" where
  "match_heading kw s =
     (if prefix kw s then
        (case drop (length kw) s of
           [] \<Rightarrow> None
         | c # rest \<Rightarrow>
             if c = CHR ''.'' \<or> isspace c then
               (let line = takeWhile (\<lambda>x. x \<noteq> newline) rest
                in if line = [] then None else Some (kw @ c # line))
             else None)
      else None)"

fun first_heading :: "string list \<Rightarrow> string \<Rightarrow> string option" where
  "first_heading [] s = None"
| "first_heading (kw # kws) s =
     (case match_heading kw s of Some g \<Rightarrow> Some g | None \<Rightarrow> first_heading kws s)"

text \<open>
  The whole pattern at a line start: the length of the match and group 1. The optional
  prefix \<open>\d+\s+\<close> is greedy; giving characters back cannot help, since the keyword
  starts with neither a digit nor whitespace, so the only other attempt is the one
  without the prefix.
\<close>

definition match_scene_pattern :: "string \<Rightarrow> (nat \<times> string) option" where
  "match_scene_pattern s =
     (let digits = takeWhile isdecimal s;
          spaces = takeWhile isspace (dropWhile isdecimal s);
          body = dropWhile isspace (dropWhile isdecimal s);
          numbered = (if digits \<noteq> [] \<and> spaces \<noteq> []
                      then first_heading scene_keywords body else None)
      in case numbered of
           Some g \<Rightarrow> Some (length digits + length spaces + length g, g)
         | None \<Rightarrow> map_option (\<lambda>g. (length g, g)) (first_heading scene_keywords s))"

text \<open>
  \<open>scene_pattern.finditer(text)\<close>: the non-overlapping matches from left to right, each as
  its start and group 1. \<open>pos\<close> is the index of the head of the remaining text, \<open>skip\<close>
  the number of characters of the last match still to pass, and \<open>bol\<close> says whether
  \<open>^\<close> holds at \<open>pos\<close> (the start of the text, or just after a line feed).
\<close>

fun finditer_scan :: "nat \<Rightarrow> nat \<Rightarrow> bool \<Rightarrow> string \<Rightarrow> (nat \<times> string) list" where
  "finditer_scan pos skip bol [] = []"
| "finditer_scan pos skip bol (c # cs) =
     (if skip > 0 then finditer_scan (pos + 1) (skip - 1) (c = newline) cs
      else case (if bol then match_scene_pattern (c # cs) else None) of
             Some (n, g) \<Rightarrow> (pos, g) # finditer_scan (pos + 1) (n - 1) (c = newline) cs
           | None \<Rightarrow> finditer_scan (pos + 1) 0 (c = newline) cs)"

definition finditer :: "string \<Rightarrow> (nat \<times> string) list" where
  "finditer text = finditer_scan 0 0 True text"

text \<open>\<open>headers = [(m.start(), m.group(1).strip()) for m in ...]\<close>.\<close>

definition scene_headers :: "string \<Rightarrow> (nat \<times> string) list" where
  "scene_headers cleaned_text = map (\<lambda>(start, g). (start, strip g)) (finditer cleaned_text)"

text \<open>
  The loop \<open>for i, (start, heading) in enumerate(headers)\<close>, on the headers from index
  \<open>i\<close> on: \<open>headers[i + 1]\<close> is the head of the rest. A scene shorter than 30
  characters after stripping is skipped.
\<close>

fun scenes_loop :: "string \<Rightarrow> string \<Rightarrow> nat \<Rightarrow> (nat \<times> string) list \<Rightarrow> document list" where
  "scenes_loop cleaned_text film_title i [] = []"
| "scenes_loop cleaned_text film_title i ((start, heading) # rest) =
     (let stop = (case rest of [] \<Rightarrow> length cleaned_text | (next_start, _) # _ \<Rightarrow> next_start);
          scene_text = strip (slice cleaned_text start stop)
      in if length scene_text < 30 then scenes_loop cleaned_text film_title (i + 1) rest
         else \<lparr>doc_film = film_title, doc_scene_id = i + 1, doc_heading = heading,
                doc_text = scene_text\<rparr> # scenes_loop cleaned_text film_title (i + 1) rest)"

text \<open>\<open>extract_scenes(cleaned_text, film_title)\<close>.\<close>

definition extract_scenes :: "string \<Rightarrow> string \<Rightarrow> document list" where
  "extract_scenes cleaned_text film_title =
     (let headers = scene_headers cleaned_text
      in if headers = []
         then [\<lparr>doc_film = film_title, doc_scene_id = 0, doc_heading = ''FULL SCRIPT'',
                 doc_text = cleaned_text\<rparr>]
         else scenes_loop cleaned_text film_title 0 headers)"

text \<open>
  The slices \<open>cleaned_text[start:end]\<close> that the loop cuts, one for each header, as
  they are before \<open>strip\<close> and before the length test.
\<close>

fun spans_from :: "string \<Rightarrow> (nat \<times> string) list \<Rightarrow> string list" where
  "spans_from cleaned_text [] = []"
| "spans_from cleaned_text ((start, heading) # rest) =
     slice cleaned_text start
       (case rest of [] \<Rightarrow> length cleaned_text | (next_start, _) # _ \<Rightarrow> next_start)
     # spans_from cleaned_text rest"

definition scene_spans :: "string \<Rightarrow> string list" where
  "scene_spans cleaned_text = spans_from cleaned_text (scene_headers cleaned_text)"

text \<open>Example scripts, for evaluating the segmentation on concrete texts.\<close>

abbreviation two_scenes :: string where
  "two_scenes \<equiv> ''INT. SHIP - DAY\<newline>VADER: I am your father.\<newline>EXT. DUNE - NIGHT\<newline>LUKE: That is not true.''"

abbreviation titled_script :: string where
  "titled_script \<equiv> ''TITLE\<newline>INT. SHIP - DAY\<newline>VADER: I am your father.\<newline>EXT. DUNE - NIGHT\<newline>LUKE: That is not true.''"

abbreviation short_scenes :: string where
  "short_scenes \<equiv> ''INT. X - DAY\<newline>Hello\<newline>EXT. Y - NIGHT\<newline>World''"

section \<open>Chunking (02_chunk.py)\<close>

text \<open>A chunk: the dictionary \<open>chunk_documents\<close> appends.\<close>

record chunk =
  chunk_id :: nat
  chunk_film :: string
  chunk_scene_id :: nat
  chunk_heading :: string
  chunk_index :: nat
  total_chunks :: nat
  chunk_text :: string

text \<open>
  The body of the inner loop \<open>for i, chunk_text in enumerate(splits)\<close>, on the state
  \<open>(all_chunks, chunk_counter)\<close>; \<open>n\<close> is \<open>len(splits)\<close>.
\<close>

definition append_chunk ::
  "document \<Rightarrow> nat \<Rightarrow> nat \<times> string \<Rightarrow> chunk list \<times> nat \<Rightarrow> chunk list \<times> nat" where
  "append_chunk doc n = (\<lambda>(i, text) (all_chunks, chunk_counter).
     (all_chunks @
        [\<lparr>chunk_id = chunk_counter, chunk_film = doc_film doc,
          chunk_scene_id = doc_scene_id doc, chunk_heading = doc_heading doc,
          chunk_index = i, total_chunks = n, chunk_text = text\<rparr>],
      chunk_counter + 1))"

text \<open>
  The body of the outer loop \<open>for doc in docs\<close>. The text splitter is an external
  capability: \<open>split_text\<close> is the function \<open>splitter.split_text\<close>.
\<close>

definition chunk_scene ::
  "(string \<Rightarrow> string list) \<Rightarrow> document \<Rightarrow> chunk list \<times> nat \<Rightarrow> chunk list \<times> nat" where
  "chunk_scene split_text doc state =
     (let splits = split_text (doc_text doc)
      in fold (append_chunk doc (length splits)) (enumerate 0 splits) state)"

text \<open>\<open>chunk_documents(docs)\<close>.\<close>

definition chunk_documents :: "(string \<Rightarrow> string list) \<Rightarrow> document list \<Rightarrow> chunk list" where
  "chunk_documents split_text docs = fst (fold (chunk_scene split_text) docs ([], 0))"

text \<open>
  The loops in closed form, for the proofs: the chunk at position \<open>j\<close> of a scene whose
  first chunk gets the id \<open>chunk_counter\<close>, and the chunks of a list of scenes.
  \<open>chunk_documents_closed\<close> below shows that \<open>chunk_documents\<close> computes them.
\<close>

definition scene_chunk :: "document \<Rightarrow> string list \<Rightarrow> nat \<Rightarrow> nat \<Rightarrow> chunk" where
  "scene_chunk doc splits chunk_counter j =
     \<lparr>chunk_id = chunk_counter + j, chunk_film = doc_film doc,
      chunk_scene_id = doc_scene_id doc, chunk_heading = doc_heading doc,
      chunk_index = j, total_chunks = length splits, chunk_text = splits ! j\<rparr>"

fun chunks_from :: "(string \<Rightarrow> string list) \<Rightarrow> nat \<Rightarrow> document list \<Rightarrow> chunk list" where
  "chunks_from split_text chunk_counter [] = []"
| "chunks_from split_text chunk_counter (doc # docs) =
     map (scene_chunk doc (split_text (doc_text doc)) chunk_counter)
       [0..<length (split_text (doc_text doc))]
     @ chunks_from split_text (chunk_counter + length (split_text (doc_text doc))) docs"

text \<open>
  Example input for evaluating \<open>chunk_documents\<close>. The stand-in for the splitter makes
  no chunk of the empty text, one chunk of a text of at most 500 characters and two
  windows overlapping by 100 characters of a longer one, which is what the configured
  splitter (chunk size 500, overlap 100) returns on a text of at most 900 characters
  that holds none of its separators.
\<close>

abbreviation window_splitter :: "string \<Rightarrow> string list" where
  "window_splitter \<equiv>
     (\<lambda>t. if t = [] then [] else if length t \<le> 500 then [t] else [take 500 t, drop 400 t])"

abbreviation full_script :: "string \<Rightarrow> nat \<Rightarrow> string \<Rightarrow> document" where
  "full_script film_title scene script \<equiv>
     \<lparr>doc_film = film_title, doc_scene_id = scene, doc_heading = ''FULL SCRIPT'',
      doc_text = script\<rparr>"

section \<open>Embedding and indexing (03_embed_index.py)\<close>

definition COLLECTION_NAME :: string where
  "COLLECTION_NAME = ''starwars''"

definition BATCH_SIZE :: nat where
  "BATCH_SIZE = 64"

definition MIN_CHUNK_LENGTH :: nat where
  "MIN_CHUNK_LENGTH = 10"

text \<open>
  \<open>load_chunks(filepath)\<close>, on the chunk list that \<open>json.load\<close> reads from the file.
  The report of the filtered chunks is printed, not returned.
\<close>

definition load_chunks :: "chunk list \<Rightarrow> chunk list" where
  "load_chunks file_chunks = filter (\<lambda>c. length (chunk_text c) \<ge> MIN_CHUNK_LENGTH) file_chunks"

text \<open>\<open>str(n)\<close> for a non-negative integer: its decimal digits.\<close>

definition digit_char :: "nat \<Rightarrow> char" where
  "digit_char d = ''0123456789'' ! d"

function str :: "nat \<Rightarrow> string" where
  "str n = (if n < 10 then [digit_char n] else str (n div 10) @ [digit_char (n mod 10)])"
  by pat_completeness auto
termination
  by (relation "measure id") auto

declare str.simps [simp del]

text \<open>
  The metadata dictionary stored with every indexed chunk: \<open>build_chroma_collection\<close>
  writes exactly these five keys.
\<close>

record metadata =
  meta_film :: string
  meta_scene_id :: nat
  meta_heading :: string
  meta_chunk_index :: nat
  meta_total_chunks :: nat

text \<open>
  Modelled from the spec: the vector index capability of section 6 (\<open>create_collection\<close>,
  \<open>delete_collection\<close>, \<open>add\<close>, \<open>count\<close>), which is a library outside this repository.
  A collection holds entries keyed by id (section 3), here in insertion order; the client
  maps a collection name to its collection. \<open>add\<close> of an id that the collection already
  holds leaves the stored entry as it is.
\<close>

record entry =
  entry_document :: string
  entry_embedding :: "real list"
  entry_metadata :: metadata

type_synonym collection = "(string \<times> entry) list"

type_synonym client = "string \<Rightarrow> collection option"

datatype error = CollectionExists | CollectionNotFound | GenerationFailure

definition list_collections :: "client \<Rightarrow> string set" where
  "list_collections client = dom client"

definition delete_collection :: "string \<Rightarrow> client \<Rightarrow> error + client" where
  "delete_collection name client =
     (if client name = None then Inl CollectionNotFound else Inr (client(name := None)))"

definition create_collection :: "string \<Rightarrow> client \<Rightarrow> error + client" where
  "create_collection name client =
     (if client name = None then Inr (client(name \<mapsto> [])) else Inl CollectionExists)"

definition add_entry :: "string \<times> entry \<Rightarrow> collection \<Rightarrow> collection" where
  "add_entry e col = (if map_of col (fst e) = None then col @ [e] else col)"

definition collection_add ::
  "string list \<Rightarrow> string list \<Rightarrow> real list list \<Rightarrow> metadata list \<Rightarrow> collection \<Rightarrow> collection" where
  "collection_add ids docs embeddings metas col =
     fold add_entry
       (map (\<lambda>(i, d, v, m). (i, \<lparr>entry_document = d, entry_embedding = v, entry_metadata = m\<rparr>))
          (zip ids (zip docs (zip embeddings metas))))
       col"

definition count :: "collection \<Rightarrow> nat" where
  "count col = length col"

text \<open>
  The body of the loop \<open>for batch_num in range(total_batches)\<close>. \<open>model.encode(texts)\<close>
  gives one vector for each text, in order: \<open>model\<close> is the function from a text to its
  vector.
\<close>

definition index_batch :: "chunk list \<Rightarrow> (string \<Rightarrow> real list) \<Rightarrow> nat \<Rightarrow> collection \<Rightarrow> collection" where
  "index_batch chunks model batch_num col =
     (let batch = slice chunks (batch_num * BATCH_SIZE) ((batch_num + 1) * BATCH_SIZE);
          texts = map chunk_text batch;
          ids = map (\<lambda>c. str (chunk_id c)) batch;
          metas = map (\<lambda>c. \<lparr>meta_film = chunk_film c, meta_scene_id = chunk_scene_id c,
                               meta_heading = chunk_heading c, meta_chunk_index = chunk_index c,
                               meta_total_chunks = total_chunks c\<rparr>) batch;
          embeddings = map model texts
      in collection_add ids texts embeddings metas col)"

text \<open>
  \<open>build_chroma_collection(chunks, model)\<close> on the state of the persistent client: the
  new state and the collection returned.
\<close>

definition build_chroma_collection ::
  "chunk list \<Rightarrow> (string \<Rightarrow> real list) \<Rightarrow> client \<Rightarrow> error + (client \<times> collection)" where
  "build_chroma_collection chunks model client =
     (case (if COLLECTION_NAME \<in> list_collections client
            then delete_collection COLLECTION_NAME client else Inr client) of
        Inl e \<Rightarrow> Inl e
      | Inr client1 \<Rightarrow>
          (case create_collection COLLECTION_NAME client1 of
             Inl e \<Rightarrow> Inl e
           | Inr client2 \<Rightarrow>
               (let total_batches = (length chunks + BATCH_SIZE - 1) div BATCH_SIZE;
                    col = fold (index_batch chunks model) [0..<total_batches] []
                in Inr (client2(COLLECTION_NAME \<mapsto> col), col))))"

text \<open>
  The entry that a batch writes for one chunk, for the proofs: \<open>index_batch_closed\<close>
  below shows that \<open>index_batch\<close> adds these entries.
\<close>

definition chunk_entry :: "(string \<Rightarrow> real list) \<Rightarrow> chunk \<Rightarrow> string \<times> entry" where
  "chunk_entry model c =
     (str (chunk_id c),
      \<lparr>entry_document = chunk_text c, entry_embedding = model (chunk_text c),
       entry_metadata = \<lparr>meta_film = chunk_film c, meta_scene_id = chunk_scene_id c,
                          meta_heading = chunk_heading c, meta_chunk_index = chunk_index c,
                          meta_total_chunks = total_chunks c\<rparr>\<rparr>)"

text \<open>Example input for evaluating the rebuild: a chunk file and a stale collection.\<close>

abbreviation plain_chunk :: "nat \<Rightarrow> string \<Rightarrow> chunk" where
  "plain_chunk n script \<equiv>
     \<lparr>chunk_id = n, chunk_film = ''A New Hope'', chunk_scene_id = 1,
      chunk_heading = ''INT. SHIP - DAY'', chunk_index = n, total_chunks = 3,
      chunk_text = script\<rparr>"

abbreviation chunk_file :: "chunk list" where
  "chunk_file \<equiv> [plain_chunk 0 ''LUKE: I am here.'', plain_chunk 1 ''Hi'',
                  plain_chunk 2 ''VADER: No, I am.'']"

abbreviation stale_client :: client where
  "stale_client \<equiv> Map.empty(COLLECTION_NAME \<mapsto> [chunk_entry (\<lambda>t. []) (plain_chunk 7 ''old'')])"

section \<open>Query path: retrieval and the answer gate (04_query.py)\<close>

text \<open>
  Python floats are modelled as reals. The claims about the query path only compare a
  stored similarity with the threshold, and every comparison below is made on the value
  that \<open>retrieve\<close> stored, so no rounding enters the argument.
\<close>

definition TOP_K :: nat where
  "TOP_K = 5"

definition MIN_SIMILARITY :: real where
  "MIN_SIMILARITY = 0.45"

text \<open>
  The answer of \<open>collection.query\<close> for the single query embedding: the inner lists
  \<open>results["documents"][0]\<close>, \<open>results["metadatas"][0]\<close> and
  \<open>results["distances"][0]\<close>.
\<close>

record query_result =
  documents :: "string list"
  metadatas :: "metadata list"
  distances :: "real list"

text \<open>A retrieved chunk: the dictionary \<open>retrieve\<close> appends.\<close>

record retrieved =
  res_text :: string
  res_film :: string
  res_heading :: string
  res_similarity :: real

text \<open>
  The loop of \<open>retrieve\<close> over \<open>zip(documents, metadatas, distances)\<close>: a neighbour is
  kept when \<open>1 - dist >= MIN_SIMILARITY\<close>.
\<close>

fun retrieve_loop :: "(string \<times> metadata \<times> real) list \<Rightarrow> retrieved list" where
  "retrieve_loop [] = []"
| "retrieve_loop ((doc, meta, distance) # rest) =
     (let similarity = 1 - distance in
      if similarity \<ge> MIN_SIMILARITY
      then \<lparr>res_text = doc, res_film = meta_film meta, res_heading = meta_heading meta,
             res_similarity = similarity\<rparr> # retrieve_loop rest
      else retrieve_loop rest)"

text \<open>
  \<open>retrieve(query, model, collection)\<close>. The embedding model is the function \<open>model\<close>
  from a text to its vector; the index is the function \<open>collection\<close> from a query vector
  and a result count to the neighbour lists. Both are opaque capabilities.
\<close>

definition retrieve ::
  "string \<Rightarrow> (string \<Rightarrow> real list) \<Rightarrow> (real list \<Rightarrow> nat \<Rightarrow> query_result) \<Rightarrow> retrieved list" where
  "retrieve query model collection =
     (let query_embedding = model query;
          results = collection query_embedding TOP_K
      in retrieve_loop (zip (documents results) (zip (metadatas results) (distances results))))"

text \<open>\<open>is_context_sufficient(chunks)\<close>: the gate in front of the language model.\<close>

definition is_context_sufficient :: "retrieved list \<Rightarrow> bool \<times> string" where
  "is_context_sufficient chunks =
     (case chunks of
        [] \<Rightarrow> (False, ''rejected_no_chunks'')
      | c # _ \<Rightarrow>
          if res_similarity c < MIN_SIMILARITY then (False, ''rejected_low_similarity'')
          else (True, ''answered''))"

section \<open>The query log and the query turn (04_query.py)\<close>

text \<open>
  \<open>round(x, ndigits)\<close> on the reals: the nearest multiple of \<open>10 ^ -ndigits\<close>, a tie
  going to the even one.
\<close>

definition round_ndigits :: "real \<Rightarrow> nat \<Rightarrow> real" where
  "round_ndigits x ndigits =
     (let y = x * 10 ^ ndigits;
          f = \<lfloor>y\<rfloor>;
          d = y - of_int f
      in of_int (if d < 1 / 2 then f else if d > 1 / 2 then f + 1
                 else if even f then f else f + 1) / 10 ^ ndigits)"

record logged_chunk =
  lc_film :: string
  lc_heading :: string
  lc_similarity :: real

record log_entry =
  log_timestamp :: string
  log_query_text :: string
  log_outcome :: string
  log_top_similarity :: "real option"
  log_chunks_retrieved :: "logged_chunk list"
  log_answer :: "string option"

text \<open>
  \<open>log_query(query, chunks, outcome, answer)\<close>: one line appended to the log file, which
  is the list of its entries. \<open>now\<close> is the reading of \<open>datetime.now().isoformat()\<close>.
\<close>

definition log_query ::
  "string \<Rightarrow> retrieved list \<Rightarrow> string \<Rightarrow> string option \<Rightarrow> string \<Rightarrow> log_entry list \<Rightarrow> log_entry list" where
  "log_query query chunks outcome answer now log_file =
     log_file @
       [\<lparr>log_timestamp = now,
         log_query_text = query,
         log_outcome = outcome,
         log_top_similarity = (case chunks of [] \<Rightarrow> None | c # _ \<Rightarrow> Some (res_similarity c)),
         log_chunks_retrieved =
           map (\<lambda>c. \<lparr>lc_film = res_film c, lc_heading = res_heading c,
                       lc_similarity = round_ndigits (res_similarity c) 4\<rparr>) chunks,
         log_answer = answer\<rparr>]"

text \<open>
  \<open>ask(query, model, collection)\<close> on the log file. \<open>chat\<close> is the language model:
  \<open>ollama.chat\<close> on the messages that \<open>ask\<close> builds from the system prompt, the
  context formatted from the chunks and the query; it gives the tokens of the stream, or
  \<open>None\<close> when generation fails, and then the turn is aborted. What \<open>ask\<close> prints is
  left out.
\<close>

definition ask ::
  "string \<Rightarrow> (string \<Rightarrow> real list) \<Rightarrow> (real list \<Rightarrow> nat \<Rightarrow> query_result) \<Rightarrow>
   (string \<Rightarrow> retrieved list \<Rightarrow> string list option) \<Rightarrow> string \<Rightarrow> log_entry list \<Rightarrow>
   error + log_entry list" where
  "ask query model collection chat now log_file =
     (let chunks = retrieve query model collection;
          (sufficient, outcome) = is_context_sufficient chunks
      in if \<not> sufficient then Inr (log_query query chunks outcome None now log_file)
         else (case chat query chunks of
                 None \<Rightarrow> Inl GenerationFailure
               | Some full_answer \<Rightarrow>
                   Inr (log_query query chunks outcome (Some (concat full_answer)) now log_file)))"

text \<open>
  Example input for evaluating a query turn: an index that returns one neighbour at the
  distance given, an embedding model, and a language model that streams two tokens.
\<close>

abbreviation one_neighbour :: "real \<Rightarrow> real list \<Rightarrow> nat \<Rightarrow> query_result" where
  "one_neighbour d \<equiv>
     (\<lambda>v k. \<lparr>documents = [''LUKE: I am here.''],
              metadatas = [\<lparr>meta_film = ''A New Hope'', meta_scene_id = 1,
                            meta_heading = ''INT. SHIP - DAY'', meta_chunk_index = 0,
                            meta_total_chunks = 1\<rparr>],
              distances = [d]\<rparr>)"

abbreviation zero_model :: "string \<Rightarrow> real list" where
  "zero_model \<equiv> (\<lambda>q. [0, 0])"

abbreviation two_tokens :: "string \<Rightarrow> retrieved list \<Rightarrow> string list option" where
  "two_tokens \<equiv> (\<lambda>q cs. Some [''Luke'', '' is here.''])"

section \<open>Properties of ingestion\<close>

subsection \<open>The header scan\<close>

lemma finditer_scan_bounds:
  "(p, g) \<in> set (finditer_scan pos skip bol s) \<Longrightarrow> pos \<le> p \<and> p < pos + length s"
proof (induction s arbitrary: pos skip bol)
  case Nil
  then show ?case by simp
next
  case (Cons c cs)
  show ?case
  proof (cases "skip > 0")
    case True
    with Cons.prems have "(p, g) \<in> set (finditer_scan (pos + 1) (skip - 1) (c = newline) cs)"
      by simp
    from Cons.IH [OF this] show ?thesis by simp
  next
    case False
    show ?thesis
    proof (cases "if bol then match_scene_pattern (c # cs) else None")
      case None
      with False Cons.prems have "(p, g) \<in> set (finditer_scan (pos + 1) 0 (c = newline) cs)"
        by simp
      from Cons.IH [OF this] show ?thesis by simp
    next
      case (Some m)
      obtain n h where m: "m = (n, h)" by (cases m)
      with Some False Cons.prems
      have "(p, g) = (pos, h) \<or> (p, g) \<in> set (finditer_scan (pos + 1) (n - 1) (c = newline) cs)"
        by simp
      then show ?thesis
      proof
        assume "(p, g) = (pos, h)"
        then show ?thesis by simp
      next
        assume "(p, g) \<in> set (finditer_scan (pos + 1) (n - 1) (c = newline) cs)"
        from Cons.IH [OF this] show ?thesis by simp
      qed
    qed
  qed
qed

lemma finditer_scan_sorted:
  "sorted_wrt (<) (map fst (finditer_scan pos skip bol s))"
proof (induction s arbitrary: pos skip bol)
  case Nil
  then show ?case by simp
next
  case (Cons c cs)
  have later: "\<And>k b q. q \<in> set (map fst (finditer_scan (pos + 1) k b cs)) \<Longrightarrow> pos < q"
  proof -
    fix k b q assume "q \<in> set (map fst (finditer_scan (pos + 1) k b cs))"
    then obtain g where "(q, g) \<in> set (finditer_scan (pos + 1) k b cs)" by auto
    from finditer_scan_bounds [OF this] show "pos < q" by simp
  qed
  show ?case
  proof (cases "skip > 0")
    case True
    then show ?thesis using Cons.IH by simp
  next
    case False
    show ?thesis
    proof (cases "if bol then match_scene_pattern (c # cs) else None")
      case None
      with False show ?thesis using Cons.IH by simp
    next
      case (Some m)
      obtain n h where m: "m = (n, h)" by (cases m)
      with Some False show ?thesis using Cons.IH later by simp
    qed
  qed
qed

lemma scene_headers_sorted: "sorted_wrt (<) (map fst (scene_headers text))"
proof -
  have "map fst (scene_headers text) = map fst (finditer text)"
    by (simp add: scene_headers_def split_def comp_def)
  then show ?thesis by (simp add: finditer_def finditer_scan_sorted)
qed

lemma scene_headers_bound: "p \<in> set (map fst (scene_headers text)) \<Longrightarrow> p < length text"
proof -
  assume "p \<in> set (map fst (scene_headers text))"
  then have "p \<in> set (map fst (finditer text))"
    by (simp add: scene_headers_def split_def comp_def)
  then obtain g where "(p, g) \<in> set (finditer_scan 0 0 True text)"
    by (auto simp: finditer_def)
  from finditer_scan_bounds [OF this] show ?thesis by simp
qed

subsection \<open>The scene loop\<close>

lemma scenes_loop_ids:"d \<in> set (scenes_loop script film i hs) \<Longrightarrow>
     doc_film d = film \<and> i < doc_scene_id d \<and> doc_scene_id d \<le> i + length hs \<and>
     doc_heading d = snd (hs ! (doc_scene_id d - 1 - i))"
proof (induction script film i hs rule: scenes_loop.induct)
  case (1 script film i)
  then show ?case by simp
next
  case (2 script film i start heading rest)
  let ?stop = "case rest of [] \<Rightarrow> length script | (next_start, _) # _ \<Rightarrow> next_start"
  from "2.prems" have
    "d = \<lparr>doc_film = film, doc_scene_id = i + 1, doc_heading = heading,
           doc_text = strip (slice script start ?stop)\<rparr>
     \<or> d \<in> set (scenes_loop script film (i + 1) rest)"
    by (auto simp: Let_def split: if_splits)
  then show ?case
  proof
    assume "d = \<lparr>doc_film = film, doc_scene_id = i + 1, doc_heading = heading,
                  doc_text = strip (slice script start ?stop)\<rparr>"
    then show ?thesis by simp
  next
    assume in_rest: "d \<in> set (scenes_loop script film (i + 1) rest)"
    have ih: "doc_film d = film \<and> i + 1 < doc_scene_id d \<and>
              doc_scene_id d \<le> i + 1 + length rest \<and>
              doc_heading d = snd (rest ! (doc_scene_id d - 1 - (i + 1)))"
    proof (cases "length (strip (slice script start ?stop)) < 30")
      case True
      from "2.IH"(1) [OF refl refl True in_rest] show ?thesis .
    next
      case False
      from "2.IH"(2) [OF refl refl False in_rest] show ?thesis .
    qed
    then have "doc_scene_id d - 1 - i = Suc (doc_scene_id d - 1 - (i + 1))" by arith
    with ih show ?thesis by simp
  qed
qed

lemma scenes_loop_sorted:
  "sorted_wrt (<) (map doc_scene_id (scenes_loop script film i hs))"
proof (induction script film i hs rule: scenes_loop.induct)
  case (1 script film i)
  then show ?case by simp
next
  case (2 script film i start heading rest)
  let ?stop = "case rest of [] \<Rightarrow> length script | (next_start, _) # _ \<Rightarrow> next_start"
  have later: "\<forall>d \<in> set (scenes_loop script film (i + 1) rest). i + 1 < doc_scene_id d"
    using scenes_loop_ids by blast
  show ?case
  proof (cases "length (strip (slice script start ?stop)) < 30")
    case True
    from "2.IH"(1) [OF refl refl True] True show ?thesis by (simp add: Let_def)
  next
    case False
    from "2.IH"(2) [OF refl refl False] False later show ?thesis by (simp add: Let_def)
  qed
qed

lemma scenes_loop_texts:
  "map doc_text (scenes_loop script film i hs)
     = filter (\<lambda>s. 30 \<le> length s) (map strip (spans_from script hs))"
  by (induction script film i hs rule: scenes_loop.induct) (simp_all add: Let_def)

lemma concat_spans_from:
  "hs \<noteq> [] \<Longrightarrow> sorted_wrt (<) (map fst hs) \<Longrightarrow> \<forall>p \<in> set (map fst hs). p \<le> length script \<Longrightarrow>
     concat (spans_from script hs) = drop (fst (hd hs)) script"
proof (induction hs)
  case Nil
  then show ?case by simp
next
  case (Cons h rest)
  obtain start heading where h: "h = (start, heading)" by (cases h)
  show ?case
  proof (cases rest)
    case Nil
    with h show ?thesis by (simp add: slice_def)
  next
    case (Cons h' rest')
    obtain next_start heading' where h': "h' = (next_start, heading')" by (cases h')
    from Cons.prems(2) h Cons h' have le: "start \<le> next_start" by simp
    from Cons.prems(2) have "sorted_wrt (<) (map fst rest)" by simp
    moreover from Cons.prems(3) have "\<forall>p \<in> set (map fst rest). p \<le> length script" by simp
    moreover from Cons have "rest \<noteq> []" by simp
    ultimately have ih: "concat (spans_from script rest) = drop next_start script"
      using Cons.IH Cons h' by simp
    have "take (next_start - start) (drop start script) @ drop next_start script = drop start script"
    proof -
      have "drop next_start script = drop (next_start - start) (drop start script)"
        using le by simp
      then show ?thesis by (simp only: append_take_drop_id)
    qed
    with ih h Cons h' show ?thesis by (simp add: slice_def)
  qed
qed

subsection \<open>Film titles\<close>

text \<open>
  C8, evaluated at the file name of the docstring of \<open>derive_film_title\<close>: only
  hyphens are replaced by spaces, so the underscores of \<open>a_new_hope.txt\<close> stay and the
  title is \<open>A_New_Hope\<close>, not \<open>A New Hope\<close>. With hyphens the title is as documented.
\<close>

theorem C8_underscores_kept:
  "derive_film_title ''a_new_hope.txt'' = ''A_New_Hope'' \<and>
   derive_film_title ''a_new_hope.txt'' \<noteq> ''A New Hope'' \<and>
   derive_film_title ''a-new-hope.txt'' = ''A New Hope''"
  by code_simp

subsection \<open>Scenes\<close>

text \<open>
  C5 as stated fails: with two headers, the texts of the two Documents are the stripped
  spans, so their concatenation lacks the line feed between the scenes; and on the
  scenario text of the spec both scenes are shorter than 30 characters and no Document
  is returned at all.
\<close>

theorem C5_concat_counterexample:
  "scene_headers two_scenes \<noteq> [] \<and>
   concat (map doc_text (extract_scenes two_scenes ''A New Hope'')) \<noteq> two_scenes \<and>
   scene_headers short_scenes \<noteq> [] \<and>
   extract_scenes short_scenes ''A New Hope'' = []"
  by code_simp

text \<open>
  C5 as amended: when at least one header is detected, the spans that \<open>extract_scenes\<close>
  cuts (from each header's start to the next header's start, the last one to the end of
  the text), concatenated in order, are the cleaned text from the first header's start
  on; and the texts of the Documents returned are, in order, these spans stripped of
  leading and trailing whitespace, without those shorter than 30 characters.
\<close>

theorem C5_spans_reconstruct:
  assumes "scene_headers cleaned_text \<noteq> []"
  shows "concat (scene_spans cleaned_text)
           = drop (fst (hd (scene_headers cleaned_text))) cleaned_text \<and>
         map doc_text (extract_scenes cleaned_text film_title)
           = filter (\<lambda>s. 30 \<le> length s) (map strip (scene_spans cleaned_text))"
proof
  have "\<forall>p \<in> set (map fst (scene_headers cleaned_text)). p \<le> length cleaned_text"
    using scene_headers_bound by (meson less_imp_le)
  with assms scene_headers_sorted
  show "concat (scene_spans cleaned_text)
          = drop (fst (hd (scene_headers cleaned_text))) cleaned_text"
    unfolding scene_spans_def by (rule concat_spans_from)
next
  from assms
  show "map doc_text (extract_scenes cleaned_text film_title)
          = filter (\<lambda>s. 30 \<le> length s) (map strip (scene_spans cleaned_text))"
    by (simp add: extract_scenes_def scene_spans_def scenes_loop_texts)
qed

theorem C5_spans_reconstruct_witness:
  "scene_headers titled_script \<noteq> [] \<and>
   concat (scene_spans titled_script) = two_scenes \<and>
   map doc_text (extract_scenes titled_script ''A New Hope'')
     = [''INT. SHIP - DAY\<newline>VADER: I am your father.'',
        ''EXT. DUNE - NIGHT\<newline>LUKE: That is not true.'']"
proof -
  have h: "scene_headers titled_script \<noteq> []"
    by code_simp
  have f: "fst (hd (scene_headers titled_script)) = 6"
    by code_simp
  have s: "filter (\<lambda>s. 30 \<le> length s) (map strip (scene_spans titled_script))
             = [''INT. SHIP - DAY\<newline>VADER: I am your father.'',
                ''EXT. DUNE - NIGHT\<newline>LUKE: That is not true.'']"
    by code_simp
  from C5_spans_reconstruct [OF h, of "''A New Hope''"] h f s show ?thesis
    by simp
qed

text \<open>
  C9: the scene ids of the Documents of one text are strictly increasing, hence pairwise
  distinct, every Document carries the film title, and a Document with scene id \<open>k\<close>
  carries the heading of the \<open>k\<close>-th header detected; when no header is detected the
  output is the one Document with scene id 0 and heading \<open>FULL SCRIPT\<close> holding the whole
  text; and when a header is detected no Document has scene id 0.
\<close>

theorem C9_scene_ids:
  "sorted_wrt (<) (map doc_scene_id (extract_scenes cleaned_text film_title)) \<and>
   distinct (map doc_scene_id (extract_scenes cleaned_text film_title)) \<and>
   (\<forall>d \<in> set (extract_scenes cleaned_text film_title). doc_film d = film_title) \<and>
   (scene_headers cleaned_text = [] \<longrightarrow>
      extract_scenes cleaned_text film_title
        = [\<lparr>doc_film = film_title, doc_scene_id = 0, doc_heading = ''FULL SCRIPT'',
            doc_text = cleaned_text\<rparr>]) \<and>
   (scene_headers cleaned_text \<noteq> [] \<longrightarrow>
      (\<forall>d \<in> set (extract_scenes cleaned_text film_title).
         1 \<le> doc_scene_id d \<and> doc_scene_id d \<le> length (scene_headers cleaned_text) \<and>
         doc_heading d = snd (scene_headers cleaned_text ! (doc_scene_id d - 1))))"
proof (cases "scene_headers cleaned_text = []")
  case True
  then show ?thesis by (simp add: extract_scenes_def)
next
  case False
  then have e: "extract_scenes cleaned_text film_title
                  = scenes_loop cleaned_text film_title 0 (scene_headers cleaned_text)"
    by (simp add: extract_scenes_def)
  have inc: "sorted_wrt (<) (map doc_scene_id (extract_scenes cleaned_text film_title))"
    unfolding e by (rule scenes_loop_sorted)
  then have dis: "distinct (map doc_scene_id (extract_scenes cleaned_text film_title))"
    by (simp add: strict_sorted_iff)
  have each: "\<forall>d \<in> set (extract_scenes cleaned_text film_title).
                doc_film d = film_title \<and> 1 \<le> doc_scene_id d \<and>
                doc_scene_id d \<le> length (scene_headers cleaned_text) \<and>
                doc_heading d = snd (scene_headers cleaned_text ! (doc_scene_id d - 1))"
  proof
    fix d assume "d \<in> set (extract_scenes cleaned_text film_title)"
    then have "d \<in> set (scenes_loop cleaned_text film_title 0 (scene_headers cleaned_text))"
      by (simp only: e)
    from scenes_loop_ids [OF this]
    show "doc_film d = film_title \<and> 1 \<le> doc_scene_id d \<and>
          doc_scene_id d \<le> length (scene_headers cleaned_text) \<and>
          doc_heading d = snd (scene_headers cleaned_text ! (doc_scene_id d - 1))"
      by simp
  qed
  from False inc dis each show ?thesis by simp
qed

theorem C9_scene_ids_witness:
  "scene_headers titled_script = [(6, ''INT. SHIP - DAY''), (47, ''EXT. DUNE - NIGHT'')] \<and>
   map doc_scene_id (extract_scenes titled_script ''A New Hope'') = [1, 2] \<and>
   map doc_heading (extract_scenes titled_script ''A New Hope'')
     = [''INT. SHIP - DAY'', ''EXT. DUNE - NIGHT''] \<and>
   sorted_wrt (<) (map doc_scene_id (extract_scenes titled_script ''A New Hope'')) \<and>
   scene_headers ''STAR WARS'' = [] \<and>
   extract_scenes ''STAR WARS'' ''A New Hope''
     = [\<lparr>doc_film = ''A New Hope'', doc_scene_id = 0, doc_heading = ''FULL SCRIPT'',
         doc_text = ''STAR WARS''\<rparr>]"
proof -
  have h: "scene_headers titled_script
             = [(6, ''INT. SHIP - DAY''), (47, ''EXT. DUNE - NIGHT'')]"
    by code_simp
  have i: "map doc_scene_id (extract_scenes titled_script ''A New Hope'') = [1, 2]"
    by code_simp
  have g: "map doc_heading (extract_scenes titled_script ''A New Hope'')
             = [''INT. SHIP - DAY'', ''EXT. DUNE - NIGHT'']"
    by code_simp
  have n: "scene_headers ''STAR WARS'' = []"
    by code_simp
  from C9_scene_ids [of titled_script "''A New Hope''"]
    C9_scene_ids [of "''STAR WARS''" "''A New Hope''"] h i g n
  show ?thesis by simp
qed

section \<open>Properties of chunking\<close>

lemma fold_append_chunk:
  "fold (append_chunk doc n) (enumerate k splits) (acc, c)
     = (acc @ map (\<lambda>j. \<lparr>chunk_id = c + j, chunk_film = doc_film doc,
                          chunk_scene_id = doc_scene_id doc, chunk_heading = doc_heading doc,
                          chunk_index = k + j, total_chunks = n, chunk_text = splits ! j\<rparr>)
                [0..<length splits],
        c + length splits)"
proof (induction splits arbitrary: k acc c)
  case Nil
  then show ?case by simp
next
  case (Cons x xs)
  have "fold (append_chunk doc n) (enumerate k (x # xs)) (acc, c)
          = fold (append_chunk doc n) (enumerate (Suc k) xs)
              (acc @ [\<lparr>chunk_id = c, chunk_film = doc_film doc,
                        chunk_scene_id = doc_scene_id doc, chunk_heading = doc_heading doc,
                        chunk_index = k, total_chunks = n, chunk_text = x\<rparr>], Suc c)"
    by (simp add: append_chunk_def)
  also note Cons.IH
  finally show ?case by (simp add: map_upt_Suc del: upt_Suc)
qed

lemma chunk_scene_closed:
  "chunk_scene split_text doc (acc, c)
     = (acc @ map (scene_chunk doc (split_text (doc_text doc)) c)
                [0..<length (split_text (doc_text doc))],
        c + length (split_text (doc_text doc)))"
  unfolding chunk_scene_def Let_def scene_chunk_def
  by (simp add: fold_append_chunk)

lemma fold_chunk_scene:
  "fold (chunk_scene split_text) docs (acc, c)
     = (acc @ chunks_from split_text c docs, c + length (chunks_from split_text c docs))"
proof (induction docs arbitrary: acc c)
  case Nil
  then show ?case by simp
next
  case (Cons doc docs)
  show ?case by (simp add: chunk_scene_closed Cons.IH)
qed

lemma chunk_documents_closed: "chunk_documents split_text docs = chunks_from split_text 0 docs"
  by (simp add: chunk_documents_def fold_chunk_scene)

lemma chunks_from_ids:
  "map chunk_id (chunks_from split_text c docs)
     = [c..<c + length (chunks_from split_text c docs)]"
proof (induction docs arbitrary: c)
  case Nil
  then show ?case by simp
next
  case (Cons doc docs)
  let ?n = "length (split_text (doc_text doc))"
  let ?m = "length (chunks_from split_text (c + ?n) docs)"
  have "map chunk_id (map (scene_chunk doc (split_text (doc_text doc)) c) [0..<?n])
          = map (\<lambda>j. j + c) [0..<?n]"
    by (simp add: scene_chunk_def add.commute)
  also have "\<dots> = [c..<c + ?n]"
    by (simp add: map_add_upt add.commute)
  finally have first: "map chunk_id (map (scene_chunk doc (split_text (doc_text doc)) c) [0..<?n])
                         = [c..<c + ?n]" .
  have "[c..<c + ?n + ?m] = [c..<c + ?n] @ [c + ?n..<c + ?n + ?m]"
    by (rule upt_add_eq_append) simp
  with first Cons.IH [of "c + ?n"] show ?case by (simp add: add.assoc)
qed

lemma chunks_from_index:
  "map chunk_index (chunks_from split_text c docs)
     = concat (map (\<lambda>d. [0..<length (split_text (doc_text d))]) docs)"
  by (induction docs arbitrary: c) (simp_all add: scene_chunk_def comp_def)

lemma chunks_from_total:
  "map total_chunks (chunks_from split_text c docs)
     = concat (map (\<lambda>d. replicate (length (split_text (doc_text d)))
                                   (length (split_text (doc_text d)))) docs)"
  by (induction docs arbitrary: c) (simp_all add: scene_chunk_def comp_def map_replicate_const)

lemma chunks_from_count:
  "length (filter (\<lambda>x. chunk_film x = f \<and> chunk_scene_id x = i) (chunks_from split_text c docs))
     = sum_list (map (\<lambda>d. length (split_text (doc_text d)))
                  (filter (\<lambda>d. doc_film d = f \<and> doc_scene_id d = i) docs))"
proof (induction docs arbitrary: c)
  case Nil
  then show ?case by simp
next
  case (Cons doc docs)
  let ?n = "length (split_text (doc_text doc))"
  have "filter (\<lambda>x. chunk_film x = f \<and> chunk_scene_id x = i)
          (map (scene_chunk doc (split_text (doc_text doc)) c) [0..<?n])
        = (if doc_film doc = f \<and> doc_scene_id doc = i
           then map (scene_chunk doc (split_text (doc_text doc)) c) [0..<?n] else [])"
    by (simp add: filter_map comp_def scene_chunk_def)
  then show ?case by (simp add: Cons.IH)
qed

lemma chunks_from_origin:
  "x \<in> set (chunks_from split_text c docs) \<Longrightarrow>
     \<exists>d \<in> set docs. chunk_film x = doc_film d \<and> chunk_scene_id x = doc_scene_id d \<and>
                     total_chunks x = length (split_text (doc_text d))"
  by (induction docs arbitrary: c) (auto simp: scene_chunk_def)

lemma filter_distinct_key:
  "distinct (map k xs) \<Longrightarrow> x \<in> set xs \<Longrightarrow> filter (\<lambda>y. k y = k x) xs = [x]"
proof (induction xs)
  case Nil
  then show ?case by simp
next
  case (Cons a xs)
  show ?case
  proof (cases "a = x")
    case True
    from Cons.prems(1) have "k a \<notin> k ` set xs" by simp
    then have "\<forall>y \<in> set xs. k y \<noteq> k a" by (metis imageI)
    then have "filter (\<lambda>y. k y = k a) xs = []" by (simp add: filter_empty_conv)
    with True show ?thesis by simp
  next
    case False
    with Cons.prems have x: "x \<in> set xs" by simp
    from Cons.prems(1) have "k a \<notin> k ` set xs" by simp
    with x have "k a \<noteq> k x" by (metis imageI)
    with Cons.IH x Cons.prems(1) show ?thesis by simp
  qed
qed

text \<open>
  C10 as stated fails on the last part. Two Documents can carry the same film and scene
  id: the file names \<open>a-b.txt\<close> and \<open>A-B.txt\<close> give the same title, and a script
  without a scene header becomes the Document with scene id 0. Their chunks share the
  pair and carry different \<open>total_chunks\<close>.
\<close>

theorem C10_shared_pair_counterexample:
  "extract_scenes ''Luke'' (derive_film_title ''a-b.txt'')
     @ extract_scenes (replicate 501 (CHR ''a'')) (derive_film_title ''A-B.txt'')
     = [full_script ''A B'' 0 ''Luke'', full_script ''A B'' 0 (replicate 501 (CHR ''a''))] \<and>
   \<not> (\<forall>c \<in> set (chunk_documents window_splitter
                     [full_script ''A B'' 0 ''Luke'',
                      full_script ''A B'' 0 (replicate 501 (CHR ''a''))]).
        \<forall>c' \<in> set (chunk_documents window_splitter
                     [full_script ''A B'' 0 ''Luke'',
                      full_script ''A B'' 0 (replicate 501 (CHR ''a''))]).
          chunk_film c = chunk_film c' \<and> chunk_scene_id c = chunk_scene_id c'
            \<longrightarrow> total_chunks c = total_chunks c')"
proof (rule conjI)
  show "extract_scenes ''Luke'' (derive_film_title ''a-b.txt'')
          @ extract_scenes (replicate 501 (CHR ''a'')) (derive_film_title ''A-B.txt'')
          = [full_script ''A B'' 0 ''Luke'', full_script ''A B'' 0 (replicate 501 (CHR ''a''))]"
    by code_simp
next
  show "\<not> (\<forall>c \<in> set (chunk_documents window_splitter
                     [full_script ''A B'' 0 ''Luke'',
                      full_script ''A B'' 0 (replicate 501 (CHR ''a''))]).
        \<forall>c' \<in> set (chunk_documents window_splitter
                     [full_script ''A B'' 0 ''Luke'',
                      full_script ''A B'' 0 (replicate 501 (CHR ''a''))]).
          chunk_film c = chunk_film c' \<and> chunk_scene_id c = chunk_scene_id c'
            \<longrightarrow> total_chunks c = total_chunks c')"
    by (simp add: chunk_documents_def chunk_scene_def append_chunk_def)
qed

text \<open>
  C10 as amended: the chunk ids are \<open>0, 1, 2, ...\<close> in emission order, hence strictly
  increasing and pairwise distinct; the chunk indices of each Document run \<open>0, 1, 2, ...\<close>
  in order; every chunk carries as \<open>total_chunks\<close> the number of chunks that its own
  Document produced; and when the Documents have pairwise distinct (film, scene id)
  pairs, that is the number of chunks sharing the chunk's pair, so chunks sharing a pair
  carry the same \<open>total_chunks\<close>.
\<close>

theorem C10_chunk_ordinals:
  "map chunk_id (chunk_documents split_text docs)
     = [0..<length (chunk_documents split_text docs)] \<and>
   sorted_wrt (<) (map chunk_id (chunk_documents split_text docs)) \<and>
   distinct (map chunk_id (chunk_documents split_text docs)) \<and>
   map chunk_index (chunk_documents split_text docs)
     = concat (map (\<lambda>d. [0..<length (split_text (doc_text d))]) docs) \<and>
   map total_chunks (chunk_documents split_text docs)
     = concat (map (\<lambda>d. replicate (length (split_text (doc_text d)))
                                   (length (split_text (doc_text d)))) docs) \<and>
   (distinct (map (\<lambda>d. (doc_film d, doc_scene_id d)) docs) \<longrightarrow>
      (\<forall>c \<in> set (chunk_documents split_text docs).
         total_chunks c
           = length (filter (\<lambda>c'. chunk_film c' = chunk_film c \<and>
                                   chunk_scene_id c' = chunk_scene_id c)
                       (chunk_documents split_text docs))))"
proof -
  let ?cs = "chunk_documents split_text docs"
  have ids: "map chunk_id ?cs = [0..<length ?cs]"
    using chunks_from_ids [of split_text 0 docs] by (simp add: chunk_documents_closed)
  then have inc: "sorted_wrt (<) (map chunk_id ?cs)" and dis: "distinct (map chunk_id ?cs)"
    by simp_all
  have idx: "map chunk_index ?cs
               = concat (map (\<lambda>d. [0..<length (split_text (doc_text d))]) docs)"
    by (simp add: chunk_documents_closed chunks_from_index)
  have tot: "map total_chunks ?cs
               = concat (map (\<lambda>d. replicate (length (split_text (doc_text d)))
                                             (length (split_text (doc_text d)))) docs)"
    by (simp add: chunk_documents_closed chunks_from_total)
  have shared: "\<forall>c \<in> set ?cs.
                  total_chunks c
                    = length (filter (\<lambda>c'. chunk_film c' = chunk_film c \<and>
                                            chunk_scene_id c' = chunk_scene_id c) ?cs)"
    if d: "distinct (map (\<lambda>d. (doc_film d, doc_scene_id d)) docs)"
  proof
    fix c assume "c \<in> set ?cs"
    then have "c \<in> set (chunks_from split_text 0 docs)"
      by (simp add: chunk_documents_closed)
    then obtain d0 where d0: "d0 \<in> set docs" "chunk_film c = doc_film d0"
        "chunk_scene_id c = doc_scene_id d0"
        "total_chunks c = length (split_text (doc_text d0))"
      using chunks_from_origin by blast
    have "filter (\<lambda>y. (doc_film y, doc_scene_id y) = (doc_film d0, doc_scene_id d0)) docs = [d0]"
      using d d0(1) by (rule filter_distinct_key)
    then have "filter (\<lambda>d. doc_film d = chunk_film c \<and> doc_scene_id d = chunk_scene_id c) docs
                 = [d0]"
      using d0(2,3) by simp
    then have "length (filter (\<lambda>c'. chunk_film c' = chunk_film c \<and>
                                     chunk_scene_id c' = chunk_scene_id c) ?cs)
                 = length (split_text (doc_text d0))"
      by (simp add: chunk_documents_closed chunks_from_count)
    with d0(4)
    show "total_chunks c
            = length (filter (\<lambda>c'. chunk_film c' = chunk_film c \<and>
                                    chunk_scene_id c' = chunk_scene_id c) ?cs)"
      by simp
  qed
  from ids inc dis idx tot shared show ?thesis by blast
qed

theorem C10_chunk_ordinals_witness:
  "distinct (map (\<lambda>d. (doc_film d, doc_scene_id d))
      [full_script ''A'' 0 ''Luke'', full_script ''B'' 0 (replicate 501 (CHR ''a''))]) \<and>
   map chunk_id (chunk_documents window_splitter
      [full_script ''A'' 0 ''Luke'', full_script ''B'' 0 (replicate 501 (CHR ''a''))])
     = [0, 1, 2] \<and>
   map chunk_index (chunk_documents window_splitter
      [full_script ''A'' 0 ''Luke'', full_script ''B'' 0 (replicate 501 (CHR ''a''))])
     = [0, 0, 1] \<and>
   map total_chunks (chunk_documents window_splitter
      [full_script ''A'' 0 ''Luke'', full_script ''B'' 0 (replicate 501 (CHR ''a''))])
     = [1, 2, 2]"
  using C10_chunk_ordinals [of window_splitter
      "[full_script ''A'' 0 ''Luke'', full_script ''B'' 0 (replicate 501 (CHR ''a''))]"]
  by (simp add: chunk_documents_def chunk_scene_def append_chunk_def)

section \<open>Properties of indexing\<close>

lemma digit_char_inj: "d < 10 \<Longrightarrow> e < 10 \<Longrightarrow> digit_char d = digit_char e \<Longrightarrow> d = e"
proof -
  assume d: "d < 10" and e: "e < 10" and eq: "digit_char d = digit_char e"
  have "distinct ''0123456789''" by simp
  moreover from d have "d < length ''0123456789''" by simp
  moreover from e have "e < length ''0123456789''" by simp
  ultimately have "(''0123456789'' ! d = ''0123456789'' ! e) = (d = e)"
    by (rule nth_eq_iff_index_eq)
  with eq show "d = e" by (simp add: digit_char_def)
qed

lemma str_not_Nil: "str n \<noteq> []"
  by (subst str.simps) simp

lemma str_inj: "str n = str m \<Longrightarrow> n = m"
proof (induction n arbitrary: m rule: str.induct)
  case (1 n)
  show ?case
  proof (cases "n < 10")
    case n: True
    show ?thesis
    proof (cases "m < 10")
      case True
      with n "1.prems" have "digit_char n = digit_char m"
        by (simp add: str.simps [of n] str.simps [of m])
      with n True show ?thesis by (rule digit_char_inj)
    next
      case False
      with n "1.prems" have "[digit_char n] = str (m div 10) @ [digit_char (m mod 10)]"
        by (simp add: str.simps [of n] str.simps [of m])
      then have "str (m div 10) = []" by simp
      with str_not_Nil show ?thesis by blast
    qed
  next
    case n: False
    show ?thesis
    proof (cases "m < 10")
      case True
      with n "1.prems" have "str (n div 10) @ [digit_char (n mod 10)] = [digit_char m]"
        by (simp add: str.simps [of n] str.simps [of m])
      then have "str (n div 10) = []" by simp
      with str_not_Nil show ?thesis by blast
    next
      case False
      with n "1.prems"
      have "str (n div 10) @ [digit_char (n mod 10)] = str (m div 10) @ [digit_char (m mod 10)]"
        by (simp add: str.simps [of n] str.simps [of m])
      then have q: "str (n div 10) = str (m div 10)"
        and r: "digit_char (n mod 10) = digit_char (m mod 10)" by simp_all
      from "1.IH" [OF n q] have "n div 10 = m div 10" .
      moreover have "n mod 10 = m mod 10"
        by (rule digit_char_inj [OF _ _ r]) simp_all
      ultimately show ?thesis by (metis div_mult_mod_eq)
    qed
  qed
qed

lemma inj_str: "inj_on str A"
  by (rule inj_onI) (rule str_inj)

lemma fst_chunk_entry: "fst (chunk_entry model c) = str (chunk_id c)"
  by (simp add: chunk_entry_def)

lemma distinct_map_str: "distinct ns \<Longrightarrow> distinct (map str ns)"
  by (simp add: distinct_map inj_str)

lemma add_entry_ids:
  "set (map fst (fold add_entry es col)) = set (map fst col) \<union> set (map fst es)"
proof (induction es arbitrary: col)
  case Nil
  then show ?case by simp
next
  case (Cons e es)
  have "set (map fst (add_entry e col)) = insert (fst e) (set (map fst col))"
    by (auto simp: add_entry_def map_of_eq_None_iff)
  with Cons.IH [of "add_entry e col"] show ?case by auto
qed

lemma add_entry_distinct:
  "distinct (map fst (col @ es)) \<Longrightarrow> fold add_entry es col = col @ es"
proof (induction es arbitrary: col)
  case Nil
  then show ?case by simp
next
  case (Cons e es)
  from Cons.prems have "fst e \<notin> fst ` set col" by auto
  then have "add_entry e col = col @ [e]"
    by (simp add: add_entry_def map_of_eq_None_iff)
  moreover from Cons.prems have "distinct (map fst ((col @ [e]) @ es))" by simp
  ultimately show ?case using Cons.IH [of "col @ [e]"] by simp
qed

lemma zip4_map:
  "map F (zip (map a xs) (zip (map b xs) (zip (map c xs) (map d xs))))
     = map (\<lambda>x. F (a x, b x, c x, d x)) xs"
  by (induction xs) simp_all

lemma index_batch_closed:
  "index_batch chunks model batch_num col
     = fold add_entry
         (map (chunk_entry model)
            (slice chunks (batch_num * BATCH_SIZE) ((batch_num + 1) * BATCH_SIZE))) col"
proof -
  have "\<And>batch. collection_add (map (\<lambda>c. str (chunk_id c)) batch) (map chunk_text batch)
           (map model (map chunk_text batch))
           (map (\<lambda>c. \<lparr>meta_film = chunk_film c, meta_scene_id = chunk_scene_id c,
                        meta_heading = chunk_heading c, meta_chunk_index = chunk_index c,
                        meta_total_chunks = total_chunks c\<rparr>) batch) col
         = fold add_entry (map (chunk_entry model) batch) col"
    unfolding collection_add_def
    by (simp add: zip4_map [where c = "\<lambda>x. model (chunk_text x)", simplified comp_def]
          comp_def chunk_entry_def [abs_def])
  then show ?thesis by (simp add: index_batch_def Let_def)
qed

lemma fold_index_batch:
  "fold (index_batch chunks model) [0..<m] col
     = fold add_entry (map (chunk_entry model) (take (m * BATCH_SIZE) chunks)) col"
proof (induction m)
  case 0
  then show ?case by simp
next
  case (Suc m)
  have "take (Suc m * BATCH_SIZE) chunks
          = take (m * BATCH_SIZE) chunks
            @ slice chunks (m * BATCH_SIZE) ((m + 1) * BATCH_SIZE)"
    by (simp add: slice_def take_add [symmetric] add.commute)
  with Suc.IH show ?case by (simp add: index_batch_closed)
qed

lemma all_batches:
  "fold (index_batch chunks model) [0..<(length chunks + BATCH_SIZE - 1) div BATCH_SIZE] col
     = fold add_entry (map (chunk_entry model) chunks) col"
proof -
  have "length chunks \<le> (length chunks + BATCH_SIZE - 1) div BATCH_SIZE * BATCH_SIZE"
    by (simp add: BATCH_SIZE_def)
  then show ?thesis by (simp add: fold_index_batch)
qed

lemma build_chroma_collection_closed:
  "build_chroma_collection chunks model client
     = Inr (client(COLLECTION_NAME \<mapsto> fold add_entry (map (chunk_entry model) chunks) []),
            fold add_entry (map (chunk_entry model) chunks) [])"
proof -
  have b: "fold (index_batch chunks model)
             [0..<(length chunks + BATCH_SIZE - 1) div BATCH_SIZE] []
           = fold add_entry (map (chunk_entry model) chunks) []"
    by (rule all_batches)
  show ?thesis
  proof (cases "client COLLECTION_NAME")
    case None
    then show ?thesis
      unfolding build_chroma_collection_def Let_def b
      by (simp add: list_collections_def create_collection_def dom_def)
  next
    case (Some old)
    then show ?thesis
      unfolding build_chroma_collection_def Let_def b
      by (simp add: list_collections_def create_collection_def delete_collection_def dom_def)
  qed
qed

text \<open>
  C6: the rebuild (\<open>load_chunks\<close>, then \<open>build_chroma_collection\<close>) succeeds from any
  state of the client, also when a collection of the same name exists; a second rebuild
  from the state that the first one left gives the same state and the same collection,
  so the same size and the same ids; the ids of the collection are the ids of the chunks
  that survive the length filter; and for a chunk file with pairwise distinct chunk ids
  (as \<open>chunk_documents\<close> writes it) the count of the collection is the number of chunks
  that survive the filter.
\<close>

theorem C6_rebuild_idempotent:
  "\<exists>client1 col.
     build_chroma_collection (load_chunks file_chunks) model client = Inr (client1, col) \<and>
     build_chroma_collection (load_chunks file_chunks) model client1 = Inr (client1, col) \<and>
     client1 COLLECTION_NAME = Some col \<and>
     set (map fst col) = (\<lambda>c. str (chunk_id c)) ` set (load_chunks file_chunks) \<and>
     (distinct (map chunk_id file_chunks) \<longrightarrow>
        count col = length (load_chunks file_chunks) \<and>
        map fst col = map (\<lambda>c. str (chunk_id c)) (load_chunks file_chunks))"
proof -
  let ?chunks = "load_chunks file_chunks"
  let ?es = "map (chunk_entry model) ?chunks"
  let ?col = "fold add_entry ?es []"
  let ?client1 = "client(COLLECTION_NAME \<mapsto> ?col)"
  have keys: "map fst ?es = map (\<lambda>c. str (chunk_id c)) ?chunks"
    by (simp add: fst_chunk_entry comp_def)
  have first: "build_chroma_collection ?chunks model client = Inr (?client1, ?col)"
    by (rule build_chroma_collection_closed)
  have "build_chroma_collection ?chunks model ?client1
          = Inr (?client1(COLLECTION_NAME \<mapsto> ?col), ?col)"
    by (rule build_chroma_collection_closed)
  then have second: "build_chroma_collection ?chunks model ?client1 = Inr (?client1, ?col)"
    by simp
  have stored: "?client1 COLLECTION_NAME = Some ?col"
    by simp
  have "set (map fst ?col) = set (map fst ?es)"
    using add_entry_ids [of ?es "[]"] by simp
  then have ids: "set (map fst ?col) = (\<lambda>c. str (chunk_id c)) ` set ?chunks"
    by (simp only: keys set_map)
  have counted: "count ?col = length ?chunks \<and> map fst ?col = map (\<lambda>c. str (chunk_id c)) ?chunks"
    if d: "distinct (map chunk_id file_chunks)"
  proof -
    from d have "distinct (map chunk_id ?chunks)"
      unfolding load_chunks_def by (rule distinct_map_filter)
    then have "distinct (map str (map chunk_id ?chunks))"
      by (rule distinct_map_str)
    then have "distinct (map fst ([] @ ?es))"
      by (simp add: fst_chunk_entry comp_def)
    then have "?col = [] @ ?es"
      by (rule add_entry_distinct)
    then have col: "?col = ?es" by simp
    show ?thesis unfolding col by (simp add: count_def fst_chunk_entry comp_def)
  qed
  from first second stored ids counted show ?thesis by blast
qed

theorem C6_rebuild_idempotent_witness:
  "distinct (map chunk_id chunk_file) \<and>
   map chunk_id (load_chunks chunk_file) = [0, 2] \<and>
   stale_client COLLECTION_NAME \<noteq> None \<and>
   (\<exists>client1 col.
      build_chroma_collection (load_chunks chunk_file) (\<lambda>t. []) stale_client
        = Inr (client1, col) \<and>
      build_chroma_collection (load_chunks chunk_file) (\<lambda>t. []) client1 = Inr (client1, col) \<and>
      count col = 2 \<and> map fst col = [''0'', ''2''])"
proof -
  have d: "distinct (map chunk_id chunk_file)"
    by simp
  have l: "load_chunks chunk_file
             = [plain_chunk 0 ''LUKE: I am here.'', plain_chunk 2 ''VADER: No, I am.'']"
    by (simp add: load_chunks_def MIN_CHUNK_LENGTH_def)
  have s: "str 0 = ''0''" "str 2 = ''2''"
    by (simp_all add: str.simps digit_char_def)
  from C6_rebuild_idempotent [of chunk_file "\<lambda>t. []" stale_client] d
  obtain client1 col where
    "build_chroma_collection (load_chunks chunk_file) (\<lambda>t. []) stale_client = Inr (client1, col)"
    "build_chroma_collection (load_chunks chunk_file) (\<lambda>t. []) client1 = Inr (client1, col)"
    "count col = length (load_chunks chunk_file)"
    "map fst col = map (\<lambda>c. str (chunk_id c)) (load_chunks chunk_file)"
    by blast
  with d l s show ?thesis by auto
qed

section \<open>Properties of the query path\<close>

lemma retrieve_loop_similarity:
  "c \<in> set (retrieve_loop ns) \<Longrightarrow> MIN_SIMILARITY \<le> res_similarity c"
  by (induction ns rule: retrieve_loop.induct) (auto simp: Let_def split: if_splits)

lemma retrieve_loop_origin:
  "c \<in> set (retrieve_loop ns) \<Longrightarrow> \<exists>d \<in> set (map (snd \<circ> snd) ns). res_similarity c = 1 - d"
  by (induction ns rule: retrieve_loop.induct) (auto simp: Let_def split: if_splits)

lemma retrieve_similarity:
  "c \<in> set (retrieve query model collection) \<Longrightarrow> MIN_SIMILARITY \<le> res_similarity c"
  unfolding retrieve_def Let_def by (rule retrieve_loop_similarity)

lemma zip3_distances: "set (map (snd \<circ> snd) (zip xs (zip ys zs))) \<subseteq> set zs"
proof
  fix d assume "d \<in> set (map (snd \<circ> snd) (zip xs (zip ys zs)))"
  then obtain x y where "(x, y, d) \<in> set (zip xs (zip ys zs))" by auto
  then have "(y, d) \<in> set (zip ys zs)" by (rule set_zip_rightD)
  then show "d \<in> set zs" by (rule set_zip_rightD)
qed

text \<open>
  C1, evaluated at an index that returns one neighbour at distance 0.70, that is with top
  similarity 0.30 below the threshold 0.45: the neighbour is dropped by \<open>retrieve\<close>, and
  the gate reports \<open>rejected_no_chunks\<close>, not \<open>rejected_low_similarity\<close>.
\<close>

theorem C1_below_threshold_reported_as_no_chunks:
  "retrieve ''who is luke'' zero_model (one_neighbour 0.70) = [] \<and>
   is_context_sufficient (retrieve ''who is luke'' zero_model (one_neighbour 0.70))
     = (False, ''rejected_no_chunks'') \<and>
   ask ''who is luke'' zero_model (one_neighbour 0.70) two_tokens ''2026-01-01T00:00:00'' []
     = Inr [\<lparr>log_timestamp = ''2026-01-01T00:00:00'', log_query_text = ''who is luke'',
              log_outcome = ''rejected_no_chunks'', log_top_similarity = None,
              log_chunks_retrieved = [], log_answer = None\<rparr>]"
  by (simp add: ask_def log_query_def retrieve_def is_context_sufficient_def MIN_SIMILARITY_def)

text \<open>
  C2: the gate returns \<open>(False, rejected_no_chunks)\<close> exactly on the empty list,
  \<open>(False, rejected_low_similarity)\<close> exactly on a non-empty list whose first similarity
  is below \<open>MIN_SIMILARITY\<close>, and \<open>(True, answered)\<close> exactly on the remaining lists.
\<close>

theorem C2_gate_outcomes:
  "(is_context_sufficient chunks = (False, ''rejected_no_chunks'')) = (chunks = []) \<and>
   (is_context_sufficient chunks = (False, ''rejected_low_similarity''))
     = (chunks \<noteq> [] \<and> res_similarity (hd chunks) < MIN_SIMILARITY) \<and>
   (is_context_sufficient chunks = (True, ''answered''))
     = (chunks \<noteq> [] \<and> \<not> res_similarity (hd chunks) < MIN_SIMILARITY)"
  by (cases chunks) (simp_all add: is_context_sufficient_def)

text \<open>
  C3: whatever the query, the embedding model and the neighbours that the index returns,
  the gate applied to the output of \<open>retrieve\<close> never returns \<open>rejected_low_similarity\<close>;
  it returns \<open>rejected_no_chunks\<close> on an empty output and \<open>answered\<close> otherwise.
\<close>

theorem C3_low_similarity_unreachable:
  "snd (is_context_sufficient (retrieve query model collection)) \<noteq> ''rejected_low_similarity'' \<and>
   is_context_sufficient (retrieve query model collection)
     = (if retrieve query model collection = [] then (False, ''rejected_no_chunks'')
        else (True, ''answered''))"
proof (cases "retrieve query model collection")
  case Nil
  then show ?thesis by (simp add: is_context_sufficient_def)
next
  case (Cons c cs)
  then have "c \<in> set (retrieve query model collection)" by simp
  then have "MIN_SIMILARITY \<le> res_similarity c" by (rule retrieve_similarity)
  with Cons show ?thesis by (simp add: is_context_sufficient_def)
qed

text \<open>
  C4: every result returned by \<open>retrieve\<close> has a similarity of at least
  \<open>MIN_SIMILARITY = 0.45\<close>, and that similarity is \<open>1 - d\<close> for a distance \<open>d\<close> that the
  index returned.
\<close>

theorem C4_retrieve_above_threshold:
  "\<forall>c \<in> set (retrieve query model collection).
     0.45 \<le> res_similarity c \<and>
     (\<exists>d \<in> set (distances (collection (model query) TOP_K)). res_similarity c = 1 - d)"
proof
  fix c assume c: "c \<in> set (retrieve query model collection)"
  let ?r = "collection (model query) TOP_K"
  let ?ns = "zip (documents ?r) (zip (metadatas ?r) (distances ?r))"
  from c have "MIN_SIMILARITY \<le> res_similarity c" by (rule retrieve_similarity)
  then have bound: "0.45 \<le> res_similarity c" by (simp add: MIN_SIMILARITY_def)
  from c have "c \<in> set (retrieve_loop ?ns)" by (simp add: retrieve_def Let_def)
  then obtain d where d: "d \<in> set (map (snd \<circ> snd) ?ns)" "res_similarity c = 1 - d"
    using retrieve_loop_origin by blast
  from d(1) have "d \<in> set (distances ?r)"
    by (rule subsetD [OF zip3_distances])
  with d(2) bound
  show "0.45 \<le> res_similarity c \<and> (\<exists>d \<in> set (distances ?r). res_similarity c = 1 - d)"
    by blast
qed

theorem C4_retrieve_above_threshold_witness:
  "retrieve ''who is luke'' (\<lambda>q. [])
     (\<lambda>v k. \<lparr>documents = [''LUKE: I am here.'', ''VADER: No.''],
              metadatas = [\<lparr>meta_film = ''A New Hope'', meta_scene_id = 1,
                            meta_heading = ''INT. DEATH STAR'', meta_chunk_index = 0,
                            meta_total_chunks = 1\<rparr>,
                           \<lparr>meta_film = ''A New Hope'', meta_scene_id = 2,
                            meta_heading = ''EXT. TATOOINE'', meta_chunk_index = 0,
                            meta_total_chunks = 1\<rparr>],
              distances = [0.20, 0.70]\<rparr>)
   = [\<lparr>res_text = ''LUKE: I am here.'', res_film = ''A New Hope'',
       res_heading = ''INT. DEATH STAR'', res_similarity = 0.80\<rparr>] \<and>
   (0.45::real) \<le> res_similarity
      \<lparr>res_text = ''LUKE: I am here.'', res_film = ''A New Hope'',
       res_heading = ''INT. DEATH STAR'', res_similarity = 0.80\<rparr>"
  using C4_retrieve_above_threshold [of "''who is luke''" "\<lambda>q. []"
     "\<lambda>v k. \<lparr>documents = [''LUKE: I am here.'', ''VADER: No.''],
              metadatas = [\<lparr>meta_film = ''A New Hope'', meta_scene_id = 1,
                            meta_heading = ''INT. DEATH STAR'', meta_chunk_index = 0,
                            meta_total_chunks = 1\<rparr>,
                           \<lparr>meta_film = ''A New Hope'', meta_scene_id = 2,
                            meta_heading = ''EXT. TATOOINE'', meta_chunk_index = 0,
                            meta_total_chunks = 1\<rparr>],
              distances = [0.20, 0.70]\<rparr>"]
  by (simp add: retrieve_def MIN_SIMILARITY_def)

section \<open>Properties of the query log\<close>

text \<open>
  C7 as stated fails on the similarity of the retrieved results: the log entry holds it
  rounded to four decimals, not verbatim. A neighbour at distance 0.123456 is retrieved
  with similarity 0.876544 and logged with 0.8765; only \<open>top_similarity\<close> is verbatim.
\<close>

theorem C7_similarity_rounded_counterexample:
  "ask ''who is luke'' zero_model (one_neighbour 0.123456) two_tokens ''2026-01-01T00:00:00'' []
     = Inr [\<lparr>log_timestamp = ''2026-01-01T00:00:00'', log_query_text = ''who is luke'',
              log_outcome = ''answered'', log_top_similarity = Some 0.876544,
              log_chunks_retrieved = [\<lparr>lc_film = ''A New Hope'',
                                        lc_heading = ''INT. SHIP - DAY'',
                                        lc_similarity = 0.8765\<rparr>],
              log_answer = Some ''Luke is here.''\<rparr>] \<and>
   map res_similarity (retrieve ''who is luke'' zero_model (one_neighbour 0.123456))
     = [0.876544] \<and>
   (0.8765 :: real) \<noteq> 0.876544"
  by (simp add: ask_def retrieve_def is_context_sufficient_def log_query_def
        round_ndigits_def MIN_SIMILARITY_def)

text \<open>
  C7 as amended: a query turn either is aborted by a failure of the generation, which can
  only happen after the gate accepted, and then nothing is logged; or it completes and
  appends exactly one entry to the log. That entry holds the query and the outcome
  verbatim, the first similarity verbatim as top similarity (null when nothing was
  retrieved), the film and heading of each retrieved result verbatim and its similarity
  rounded to four decimals, and as answer the concatenated tokens when the gate accepted
  and null when it rejected.
\<close>

theorem C7_one_log_entry:
  "(let chunks = retrieve query model collection;
        gate = is_context_sufficient chunks
    in
      (ask query model collection chat now log_file = Inl GenerationFailure \<and>
       fst gate \<and> chat query chunks = None)
      \<or>
      (\<exists>e. ask query model collection chat now log_file = Inr (log_file @ [e]) \<and>
           log_timestamp e = now \<and>
           log_query_text e = query \<and>
           log_outcome e = snd gate \<and>
           log_top_similarity e
             = (if chunks = [] then None else Some (res_similarity (hd chunks))) \<and>
           log_chunks_retrieved e
             = map (\<lambda>c. \<lparr>lc_film = res_film c, lc_heading = res_heading c,
                           lc_similarity = round_ndigits (res_similarity c) 4\<rparr>) chunks \<and>
           log_answer e
             = (if fst gate then map_option concat (chat query chunks) else None) \<and>
           (fst gate = (log_answer e \<noteq> None))))"
proof -
  let ?chunks = "retrieve query model collection"
  obtain sufficient outcome where g: "is_context_sufficient ?chunks = (sufficient, outcome)"
    by (cases "is_context_sufficient ?chunks")
  have top: "(case ?chunks of [] \<Rightarrow> None | c # _ \<Rightarrow> Some (res_similarity c))
               = (if ?chunks = [] then None else Some (res_similarity (hd ?chunks)))"
    by (cases ?chunks) simp_all
  show ?thesis
  proof (cases sufficient)
    case False
    with g top show ?thesis
      by (simp add: ask_def log_query_def Let_def)
  next
    case True
    show ?thesis
    proof (cases "chat query ?chunks")
      case None
      with g True show ?thesis
        by (simp add: ask_def Let_def)
    next
      case (Some full_answer)
      with g True top show ?thesis
        by (simp add: ask_def log_query_def Let_def)
    qed
  qed
qed

theorem C7_one_log_entry_witness:
  "ask ''who is luke'' zero_model (one_neighbour 0.123456) two_tokens ''2026-01-01T00:00:00'' []
     \<noteq> Inl GenerationFailure \<and>
   (\<exists>e. ask ''who is luke'' zero_model (one_neighbour 0.123456) two_tokens
           ''2026-01-01T00:00:00'' [] = Inr [e] \<and>
        log_outcome e = ''answered'' \<and>
        log_top_similarity e = Some 0.876544 \<and>
        log_answer e = Some ''Luke is here.'') \<and>
   (\<exists>e. ask ''who is yoda'' zero_model (one_neighbour 0.70) two_tokens
           ''2026-01-01T00:00:01'' [] = Inr [e] \<and>
        log_outcome e = ''rejected_no_chunks'' \<and>
        log_top_similarity e = None \<and>
        log_chunks_retrieved e = [] \<and>
        log_answer e = None)"
proof -
  have a: "retrieve ''who is luke'' zero_model (one_neighbour 0.123456)
             = [\<lparr>res_text = ''LUKE: I am here.'', res_film = ''A New Hope'',
                 res_heading = ''INT. SHIP - DAY'', res_similarity = 0.876544\<rparr>]"
    by (simp add: retrieve_def MIN_SIMILARITY_def)
  have ga: "is_context_sufficient
              [\<lparr>res_text = ''LUKE: I am here.'', res_film = ''A New Hope'',
                res_heading = ''INT. SHIP - DAY'', res_similarity = 0.876544\<rparr>]
            = (True, ''answered'')"
    by (simp add: is_context_sufficient_def MIN_SIMILARITY_def)
  have r: "retrieve ''who is yoda'' zero_model (one_neighbour 0.70) = []"
    by (simp add: retrieve_def MIN_SIMILARITY_def)
  have gr: "is_context_sufficient [] = (False, ''rejected_no_chunks'')"
    by (simp add: is_context_sufficient_def)
  note answered = C7_one_log_entry [of "''who is luke''" zero_model "one_neighbour 0.123456"
      two_tokens "''2026-01-01T00:00:00''" "[]", unfolded Let_def a ga]
  note rejected = C7_one_log_entry [of "''who is yoda''" zero_model "one_neighbour 0.70"
      two_tokens "''2026-01-01T00:00:01''" "[]", unfolded Let_def r gr]
  from answered have 1:
    "ask ''who is luke'' zero_model (one_neighbour 0.123456) two_tokens
       ''2026-01-01T00:00:00'' [] \<noteq> Inl GenerationFailure"
    by auto
  from answered have 2:
    "\<exists>e. ask ''who is luke'' zero_model (one_neighbour 0.123456) two_tokens
            ''2026-01-01T00:00:00'' [] = Inr [e] \<and>
         log_outcome e = ''answered'' \<and>
         log_top_similarity e = Some 0.876544 \<and>
         log_answer e = Some ''Luke is here.''"
    by auto
  from rejected have 3:
    "\<exists>e. ask ''who is yoda'' zero_model (one_neighbour 0.70) two_tokens
            ''2026-01-01T00:00:01'' [] = Inr [e] \<and>
         log_outcome e = ''rejected_no_chunks'' \<and>
         log_top_similarity e = None \<and>
         log_chunks_retrieved e = [] \<and>
         log_answer e = None"
    by auto
  from 1 2 3 show ?thesis by (intro conjI)
qed

end
